theory Spec2Isabelle
  imports Complex_Main "HOL-Library.Word" "HOL-Library.Multiset"
begin

section \<open>Pass management and pattern description (backend/pass/pass_base.hpp)\<close>

text \<open>
  The header defines three classes: \<open>pattern\<close> (a vector of nodes), \<open>pass_base\<close> (the
  metadata of a pass, its attribute multimap, \<open>save\<close> and \<open>load\<close>) and \<open>pass_registry\<close>
  (a list and a name-indexed map of shared passes, and a counter). Objects that the code
  reaches through pointers are addressed by their position in the container that owns them.
  A data member \<open>x_\<close> of the source is the field \<open>x_'\<close> here, since a name cannot end with
  an underscore.
\<close>

subsection \<open>Outcomes that are not a return value\<close>

text \<open>
  The header itself has two ways of not returning: the \<open>assert\<close> of \<open>get_pass_ptr\<close>, and
  the dereference of an iterator that may be the end iterator (undefined behaviour).
  \<open>SerializationError\<close> and \<open>DuplicateRegistration\<close> are the failures that the specification
  gives to code that is not in the header (the field reader of utils/json.hpp and the body
  of \<open>register_pass\<close>).
\<close>

datatype error =
    assertion_failed string
  | undefined_behaviour
  | SerializationError
  | DuplicateRegistration

subsection \<open>pattern\<close>

text \<open>
  Modelled from the spec: \<open>op_kind_t\<close> and the node type \<open>node_t\<close> are declared in
  interface/ir.hpp, which is absent. The header only needs the wildcard tag \<open>op_kind::any\<close>,
  the constructor of a node from an operator kind, and \<open>get_op_kind\<close>.
\<close>

datatype op_kind_t = any | op nat

record node_t =
  op_kind_' :: op_kind_t

definition get_op_kind :: "node_t \<Rightarrow> op_kind_t" where
  "get_op_kind node = op_kind_' node"

record pattern =
  nodes_' :: "node_t list"

text \<open>
  \<open>create_node\<close> pushes a new node and returns a pointer to it: the handle of a node is its
  position in \<open>nodes_'\<close>, which never changes since nodes are only appended.
\<close>

definition create_node :: "op_kind_t \<Rightarrow> pattern \<Rightarrow> nat \<times> pattern" where
  "create_node aop_kind p =
     (length (nodes_' p), p\<lparr>nodes_' := nodes_' p @ [\<lparr>op_kind_' = aop_kind\<rparr>]\<rparr>)"

text \<open>\<open>std::find_if\<close>: the position of the first element that satisfies the predicate,
  the end position (the length) when there is none.\<close>

fun find_if :: "('a \<Rightarrow> bool) \<Rightarrow> 'a list \<Rightarrow> nat" where
  "find_if P [] = 0"
| "find_if P (x # xs) = (if P x then 0 else Suc (find_if P xs))"

text \<open>
  \<open>get_starter_node\<close> dereferences the iterator that \<open>find_if\<close> returns without comparing
  it with \<open>nodes_'.end()\<close>; dereferencing the end iterator is undefined behaviour.
\<close>

definition get_starter_node :: "pattern \<Rightarrow> error + nat" where
  "get_starter_node p =
     (let it = find_if (\<lambda>node. get_op_kind node \<noteq> any) (nodes_' p)
      in if it = length (nodes_' p) then Inl undefined_behaviour else Inr it)"

subsection \<open>pass_base\<close>

datatype pass_type = kAnalysis | kTransformation

text \<open>
  \<open>attrs_'\<close> is a \<open>std::unordered_multimap\<close>: the model keeps its pairs in the order in which
  an iteration from \<open>begin()\<close> to \<open>end()\<close> visits them. \<open>index_'\<close> is an \<open>int\<close> (32 bits,
  read with \<open>sint\<close>), \<open>priority_'\<close> a \<open>float\<close> (a real number here: the header only stores
  and compares it).
\<close>

record 'v pass_base =
  attrs_' :: "(string \<times> 'v) list"
  type_' :: pass_type
  backend_' :: string
  name_' :: string
  index_' :: "32 word"
  priority_' :: real
  enable_' :: bool

definition get_pass_type :: "'v pass_base \<Rightarrow> pass_type" where
  "get_pass_type p = type_' p"

definition get_pass_backend :: "'v pass_base \<Rightarrow> string" where
  "get_pass_backend p = backend_' p"

definition get_pass_name :: "'v pass_base \<Rightarrow> string" where
  "get_pass_name p = name_' p"

definition get_pass_index :: "'v pass_base \<Rightarrow> 32 word" where
  "get_pass_index p = index_' p"

definition set_priority :: "real \<Rightarrow> 'v pass_base \<Rightarrow> 'v pass_base" where
  "set_priority priority p = p\<lparr>priority_' := priority\<rparr>"

definition get_priority :: "'v pass_base \<Rightarrow> real" where
  "get_priority p = priority_' p"

definition get_enable :: "'v pass_base \<Rightarrow> bool" where
  "get_enable p = enable_' p"

text \<open>
  \<open>set_attr\<close> calls \<open>attrs_'.insert\<close>. An unordered multimap adds the pair and loses none,
  but the place of the new pair in the iteration order is the library's choice: the C++
  standard only keeps pairs with equal keys next to each other (libstdc++ links a new pair
  right behind the first pair with an equal key). \<open>pos\<close> is that place.
\<close>

definition multimap_insert :: "nat \<Rightarrow> 'k \<times> 'v \<Rightarrow> ('k \<times> 'v) list \<Rightarrow> ('k \<times> 'v) list" where
  "multimap_insert pos kv m = take pos m @ kv # drop pos m"

definition set_attr :: "nat \<Rightarrow> string \<Rightarrow> 'v \<Rightarrow> 'v pass_base \<Rightarrow> 'v pass_base" where
  "set_attr pos attr_name val p =
     p\<lparr>attrs_' := multimap_insert pos (attr_name, val) (attrs_' p)\<rparr>"

text \<open>The loop of \<open>get_attr\<close>: \<open>attr_vec\<close> collects the values of the matching pairs.\<close>

fun get_attr_loop :: "string \<Rightarrow> (string \<times> 'v) list \<Rightarrow> 'v list \<Rightarrow> 'v list" where
  "get_attr_loop attr_name [] attr_vec = attr_vec"
| "get_attr_loop attr_name (it # rest) attr_vec =
     get_attr_loop attr_name rest
       (if fst it = attr_name then attr_vec @ [snd it] else attr_vec)"

definition get_attr :: "string \<Rightarrow> 'v pass_base \<Rightarrow> 'v list" where
  "get_attr attr_name p = get_attr_loop attr_name (attrs_' p) []"

text \<open>\<open>attrs_'.find\<close>: some pair with the key, or the end iterator.\<close>

definition has_attr :: "string \<Rightarrow> 'v pass_base \<Rightarrow> bool" where
  "has_attr attr_name p = (find (\<lambda>it. fst it = attr_name) (attrs_' p) \<noteq> None)"

text \<open>A chain of \<open>set_attr\<close> calls on one pass, each with the place its insertion took.\<close>

fun set_attrs :: "(nat \<times> string \<times> 'v) list \<Rightarrow> 'v pass_base \<Rightarrow> 'v pass_base" where
  "set_attrs [] p = p"
| "set_attrs ((pos, attr_name, val) # calls) p = set_attrs calls (set_attr pos attr_name val p)"

subsection \<open>save and load\<close>

text \<open>
  Modelled from the spec: \<open>json::json_writer\<close>, \<open>json::json_reader\<close> and
  \<open>json::read_helper\<close> are declared in utils/json.hpp, which is absent. The specification
  assumes of them a keyed write and read of primitive fields: the writer is the sequence of
  its calls, a value is kept as it was written, and \<open>read_fields\<close> fails with
  \<open>SerializationError\<close> when a declared field is missing or has the wrong shape.
\<close>

datatype json_value = json_string string | json_number real | json_bool bool

datatype json_event = begin_object_ev | keyvalue_ev string json_value | end_object_ev

type_synonym json_writer = "json_event list"

type_synonym json_reader = "json_event list"

definition begin_object :: "json_writer \<Rightarrow> json_writer" where
  "begin_object w = w @ [begin_object_ev]"

definition write_keyvalue :: "string \<Rightarrow> json_value \<Rightarrow> json_writer \<Rightarrow> json_writer" where
  "write_keyvalue k v w = w @ [keyvalue_ev k v]"

definition end_object :: "json_writer \<Rightarrow> json_writer" where
  "end_object w = w @ [end_object_ev]"

fun read_items :: "json_reader \<Rightarrow> (string \<times> json_value) list option" where
  "read_items (keyvalue_ev k v # es) = map_option ((#) (k, v)) (read_items es)"
| "read_items [end_object_ev] = Some []"
| "read_items _ = None"

fun read_object :: "json_reader \<Rightarrow> (string \<times> json_value) list option" where
  "read_object (begin_object_ev # es) = read_items es"
| "read_object _ = None"

definition save :: "'v pass_base \<Rightarrow> json_writer \<Rightarrow> json_writer" where
  "save p writer =
     (let w1 = begin_object writer;
          w2 = write_keyvalue ''pass_name'' (json_string (name_' p)) w1;
          w3 = (if type_' p = kTransformation
                then write_keyvalue ''pass_type'' (json_string ''Transformation'') w2
                else write_keyvalue ''pass_type'' (json_string ''Analysis'') w2);
          w4 = write_keyvalue ''pass_backend'' (json_string (backend_' p)) w3;
          w5 = write_keyvalue ''priority'' (json_number (priority_' p)) w4;
          w6 = write_keyvalue ''enable'' (json_bool (enable_' p)) w5
      in end_object w6)"

text \<open>
  \<open>load\<close> is a member function: it reads into the members of the pass it is called on.
  The field \<open>pass_type\<close> is declared with the local string \<open>type\<close> as its target, and
  \<open>type\<close> is not used afterwards; \<open>type_'\<close>, \<open>index_'\<close> and \<open>attrs_'\<close> are not assigned.
\<close>

definition load :: "'v pass_base \<Rightarrow> json_reader \<Rightarrow> error + 'v pass_base" where
  "load this reader =
     (case read_object reader of
        None \<Rightarrow> Inl SerializationError
      | Some items \<Rightarrow>
          (case (map_of items ''pass_name'', map_of items ''pass_type'',
                 map_of items ''pass_backend'', map_of items ''priority'',
                 map_of items ''enable'') of
             (Some (json_string name), Some (json_string type), Some (json_string backend),
              Some (json_number priority), Some (json_bool enable)) \<Rightarrow>
               Inr (this\<lparr>name_' := name, backend_' := backend,
                         priority_' := priority, enable_' := enable\<rparr>)
           | _ \<Rightarrow> Inl SerializationError))"

text \<open>
  Modelled from the spec: the constructor \<open>pass_base(ptype, pbackend, pname)\<close> is only
  declared in the header. It sets kind, backend and name; priority and enable keep their
  member initialisers (5.0 and true) and the attribute store starts empty. The creation
  index is given by the registry (see \<open>register_pass\<close>).
\<close>

definition pass_base_ctor :: "pass_type \<Rightarrow> string \<Rightarrow> string \<Rightarrow> 'v pass_base" where
  "pass_base_ctor ptype pbackend pname =
     \<lparr>attrs_' = [], type_' = ptype, backend_' = pbackend, name_' = pname, index_' = 0,
      priority_' = 5, enable_' = True\<rparr>"

definition analysis_pass :: "string \<Rightarrow> string \<Rightarrow> 'v pass_base" where
  "analysis_pass pbackend pname = pass_base_ctor kAnalysis pbackend pname"

definition transformation_pass :: "string \<Rightarrow> string \<Rightarrow> 'v pass_base" where
  "transformation_pass pbackend pname = pass_base_ctor kTransformation pbackend pname"

subsection \<open>pass_registry\<close>

text \<open>
  \<open>passes_'\<close> and \<open>passes_map_'\<close> hold shared pointers to the same pass objects, and
  \<open>register_pass\<close> and \<open>get_pass_ptr\<close> hand out references to them. The objects live in
  \<open>objects\<close>; a \<open>pass_base_ptr\<close> is a position in it, and a pass object is never freed.
  \<open>pass_counter\<close> is a \<open>std::atomic<int>\<close>: its increment wraps around.
\<close>

record 'v pass_registry =
  pass_counter :: "32 word"
  passes_' :: "nat list"
  passes_map_' :: "string \<rightharpoonup> nat"
  objects :: "'v pass_base list"

text \<open>The defaulted constructor: the counter starts at 0 and both containers are empty.\<close>

definition pass_registry_ctor :: "'v pass_registry" where
  "pass_registry_ctor =
     \<lparr>pass_counter = 0, passes_' = [], passes_map_' = Map.empty, objects = []\<rparr>"


text \<open>
  \<open>get_pass_ptr\<close> guards the lookup with \<open>assert\<close>. The macro checks only when
  \<open>NDEBUG\<close> is not defined where it is expanded; with \<open>NDEBUG\<close> the statement is empty
  and the end iterator is dereferenced.
\<close>

definition get_pass_ptr :: "bool \<Rightarrow> string \<Rightarrow> 'v pass_registry \<Rightarrow> error + nat" where
  "get_pass_ptr NDEBUG pass_name r =
     (let it = passes_map_' r pass_name
      in if \<not> NDEBUG \<and> it = None then Inl (assertion_failed ''pass not exists!'')
         else (case it of None \<Rightarrow> Inl undefined_behaviour | Some ptr \<Rightarrow> Inr ptr))"

text \<open>A member function called through a reference to a registered pass.\<close>

definition on_pass :: "nat \<Rightarrow> ('v pass_base \<Rightarrow> 'v pass_base) \<Rightarrow> 'v pass_registry \<Rightarrow> 'v pass_registry" where
  "on_pass ptr f r = r\<lparr>objects := (objects r)[ptr := f (objects r ! ptr)]\<rparr>"



text \<open>
  Modelled from the spec: the body of \<open>register_pass\<close> is not in the header (only its
  declaration is). By the specification it rejects a name that is already registered with
  \<open>DuplicateRegistration\<close>; otherwise it calls the factory, gives the new pass the next
  value of the shared counter as its creation index, appends it to the ordered collection,
  enters it in the name-indexed map and returns a reference to it.
\<close>

definition register_pass ::
  "string \<Rightarrow> string \<Rightarrow> (string \<Rightarrow> string \<Rightarrow> 'v pass_base) \<Rightarrow> 'v pass_registry
     \<Rightarrow> (error + nat) \<times> 'v pass_registry" where
  "register_pass backend_name pass_name fn r =
     (case passes_map_' r pass_name of
        Some _ \<Rightarrow> (Inl DuplicateRegistration, r)
      | None \<Rightarrow>
          (let new_pass_ptr = length (objects r);
               new_pass = (fn backend_name pass_name)\<lparr>index_' := pass_counter r\<rparr>
           in (Inr new_pass_ptr,
               r\<lparr>pass_counter := pass_counter r + 1,
                 passes_' := passes_' r @ [new_pass_ptr],
                 passes_map_' := (passes_map_' r)(pass_name \<mapsto> new_pass_ptr),
                 objects := objects r @ [new_pass]\<rparr>)))"

text \<open>A sequence of registration calls (backend, name, factory); a rejected call leaves
  the registry as it was and the next call goes on from there.\<close>

fun register_passes ::
  "(string \<times> string \<times> (string \<Rightarrow> string \<Rightarrow> 'v pass_base)) list \<Rightarrow> 'v pass_registry
     \<Rightarrow> 'v pass_registry" where
  "register_passes [] r = r"
| "register_passes ((backend_name, pass_name, fn) # calls) r =
     register_passes calls (snd (register_pass backend_name pass_name fn r))"




subsection \<open>Vocabulary of the statements and example inputs\<close>

text \<open>The values that a chain of \<open>set_attr\<close> calls adds under one name, in call order.\<close>

definition values_added :: "string \<Rightarrow> (nat \<times> string \<times> 'v) list \<Rightarrow> 'v list" where
  "values_added n calls = map (\<lambda>c. snd (snd c)) (filter (\<lambda>c. fst (snd c) = n) calls)"

text \<open>Every insertion of the chain under the name \<open>n\<close> took a place behind all pairs that
  the store \<open>m\<close> held under \<open>n\<close> at that moment.\<close>

fun behind_same_name :: "string \<Rightarrow> (string \<times> 'v) list \<Rightarrow> (nat \<times> string \<times> 'v) list \<Rightarrow> bool" where
  "behind_same_name n m [] = True"
| "behind_same_name n m ((pos, attr_name, val) # calls) =
     ((if attr_name = n then filter (\<lambda>it. fst it = n) (drop pos m) = [] else True)
      \<and> behind_same_name n (multimap_insert pos (attr_name, val) m) calls)"


text \<open>A new pass without attributes, and a chain of three \<open>set_attr\<close> calls on it: the pair
  under \<open>y\<close> goes to the front of the store, the second pair under \<open>x\<close> behind the first.\<close>

definition plain_pass :: "nat pass_base" where
  "plain_pass = transformation_pass ''dnnl'' ''p''"

definition attr_calls :: "(nat \<times> string \<times> nat) list" where
  "attr_calls = [(0, ''x'', 1), (0, ''y'', 7), (2, ''x'', 2)]"

text \<open>The pattern built as wildcard, operator 1, wildcard.\<close>

definition wild_op_wild :: pattern where
  "wild_op_wild =
     snd (create_node any (snd (create_node (op 1) (snd (create_node any \<lparr>nodes_' = []\<rparr>)))))"

text \<open>A transformation pass that is saved, and an analysis pass (with an attribute and a
  creation index of its own) on which \<open>load\<close> is called.\<close>

definition saved_pass :: "nat pass_base" where
  "saved_pass = set_priority 8 ((transformation_pass ''dnnl'' ''conv_bn_fusion'')\<lparr>index_' := 4\<rparr>)"

definition receiving_pass :: "nat pass_base" where
  "receiving_pass = set_attr 0 ''FCreatePattern'' 1 ((analysis_pass ''cpu'' ''memory_plan'')\<lparr>index_' := 3\<rparr>)"

text \<open>Registering A, B and C in this order, with \<open>set_priority\<close> called on the reference
  that each registration returns (5, 10 and 5).\<close>

definition abc_registry :: "nat pass_registry" where
  "abc_registry =
     (let (A, r1) = register_pass ''dnnl'' ''A'' transformation_pass pass_registry_ctor;
          r2 = case_sum (\<lambda>e. r1) (\<lambda>ptr. on_pass ptr (set_priority 5) r1) A;
          (B, r3) = register_pass ''dnnl'' ''B'' transformation_pass r2;
          r4 = case_sum (\<lambda>e. r3) (\<lambda>ptr. on_pass ptr (set_priority 10) r3) B;
          (C, r5) = register_pass ''dnnl'' ''C'' transformation_pass r4
      in case_sum (\<lambda>e. r5) (\<lambda>ptr. on_pass ptr (set_priority 5) r5) C)"


definition abc_calls :: "(string \<times> string \<times> (string \<Rightarrow> string \<Rightarrow> nat pass_base)) list" where
  "abc_calls = [(''dnnl'', ''A'', transformation_pass), (''dnnl'', ''B'', transformation_pass),
                (''dnnl'', ''C'', transformation_pass)]"



section \<open>pattern: the starter node\<close>

lemma find_if_le: "find_if P xs \<le> length xs"
  by (induction xs) auto

lemma find_if_end_iff: "find_if P xs = length xs \<longleftrightarrow> (\<forall>x \<in> set xs. \<not> P x)"
proof (induction xs)
  case Nil
  show ?case by simp
next
  case (Cons x xs)
  show ?case
  proof (cases "P x")
    case True
    then show ?thesis by auto
  next
    case False
    with Cons.IH show ?thesis by simp
  qed
qed

lemma find_if_hit: "find_if P xs < length xs \<Longrightarrow> P (xs ! find_if P xs)"
  by (induction xs) (auto split: if_splits)

lemma find_if_before: "j < find_if P xs \<Longrightarrow> \<not> P (xs ! j)"
proof (induction xs arbitrary: j)
  case Nil
  then show ?case by simp
next
  case (Cons x xs)
  then show ?case by (cases j) (auto split: if_splits)
qed

lemma nodes_wild_op_wild:
  "nodes_' wild_op_wild = [\<lparr>op_kind_' = any\<rparr>, \<lparr>op_kind_' = op 1\<rparr>, \<lparr>op_kind_' = any\<rparr>]"
  by (simp add: wild_op_wild_def create_node_def)

text \<open>
  C3: if a pattern has at least one node whose operator kind is not the wildcard,
  \<open>get_starter_node\<close> returns the handle of the first such node in creation order: the node
  at the handle is not a wildcard and every node created before it is one.
\<close>

theorem get_starter_node_first_non_wildcard:
  assumes "\<exists>n \<in> set (nodes_' p). get_op_kind n \<noteq> any"
  shows "\<exists>i. get_starter_node p = Inr i \<and> i < length (nodes_' p)
           \<and> get_op_kind (nodes_' p ! i) \<noteq> any
           \<and> (\<forall>j<i. get_op_kind (nodes_' p ! j) = any)"
proof -
  let ?P = "\<lambda>node. get_op_kind node \<noteq> any"
  let ?i = "find_if ?P (nodes_' p)"
  from assms have ne: "?i \<noteq> length (nodes_' p)"
    by (simp add: find_if_end_iff)
  with find_if_le [of ?P "nodes_' p"] have lt: "?i < length (nodes_' p)"
    by simp
  have "get_starter_node p = Inr ?i"
    using ne by (simp add: get_starter_node_def)
  moreover have "?P (nodes_' p ! ?i)"
    using lt by (rule find_if_hit)
  moreover have "\<forall>j<?i. get_op_kind (nodes_' p ! j) = any"
    using find_if_before [of _ ?P "nodes_' p"] by blast
  ultimately show ?thesis using lt by blast
qed

text \<open>On the pattern wildcard, operator, wildcard the starter node is the handle that the
  second \<open>create_node\<close> returned.\<close>

theorem get_starter_node_first_non_wildcard_witness:
  "(\<exists>n \<in> set (nodes_' wild_op_wild). get_op_kind n \<noteq> any)
   \<and> fst (create_node (op 1) (snd (create_node any \<lparr>nodes_' = []\<rparr>))) = 1
   \<and> get_starter_node wild_op_wild = Inr 1
   \<and> get_op_kind (nodes_' wild_op_wild ! 1) \<noteq> any
   \<and> get_op_kind (nodes_' wild_op_wild ! 0) = any"
proof -
  have h: "\<exists>n \<in> set (nodes_' wild_op_wild). get_op_kind n \<noteq> any"
    by (simp add: nodes_wild_op_wild get_op_kind_def)
  have ev: "get_starter_node wild_op_wild = Inr 1"
    by (simp add: get_starter_node_def nodes_wild_op_wild get_op_kind_def)
  have handle: "fst (create_node (op 1) (snd (create_node any \<lparr>nodes_' = []\<rparr>))) = 1"
    by (simp add: create_node_def)
  from get_starter_node_first_non_wildcard [OF h] ev
  have "get_op_kind (nodes_' wild_op_wild ! 1) \<noteq> any
          \<and> get_op_kind (nodes_' wild_op_wild ! 0) = any"
    by auto
  with h ev handle show ?thesis by blast
qed

lemma get_starter_node_end:
  "(\<forall>n \<in> set (nodes_' p). get_op_kind n = any) \<longleftrightarrow> get_starter_node p = Inl undefined_behaviour"
  by (auto simp add: get_starter_node_def find_if_end_iff Let_def)

text \<open>
  C4: on a pattern with no node, and on a pattern with wildcard nodes only, the code has no
  error branch: \<open>find_if\<close> returns the end position and \<open>get_starter_node\<close> dereferences it.
  The explicit PreconditionViolation of the claim is not what the code does there.
\<close>

theorem get_starter_node_no_eligible_node:
  "get_starter_node \<lparr>nodes_' = []\<rparr> = Inl undefined_behaviour
   \<and> get_starter_node (snd (create_node any (snd (create_node any \<lparr>nodes_' = []\<rparr>))))
       = Inl undefined_behaviour"
  by (simp add: get_starter_node_def create_node_def get_op_kind_def)

section \<open>pass_base: attributes\<close>

lemma get_attr_loop_filter:
  "get_attr_loop n m vec = vec @ map snd (filter (\<lambda>it. fst it = n) m)"
  by (induction m arbitrary: vec) auto

lemma get_attr_filter: "get_attr n p = map snd (filter (\<lambda>it. fst it = n) (attrs_' p))"
  by (simp add: get_attr_def get_attr_loop_filter)

lemma mset_multimap_insert: "mset (multimap_insert pos kv m) = add_mset kv (mset m)"
proof -
  have "mset (take pos m) + mset (drop pos m) = mset m"
    by (metis append_take_drop_id mset_append)
  then show ?thesis by (simp add: multimap_insert_def)
qed

lemma mset_attrs_set_attrs:
  "mset (attrs_' (set_attrs calls p)) = mset (attrs_' p) + mset (map snd calls)"
proof (induction calls arbitrary: p)
  case Nil
  show ?case by simp
next
  case (Cons c calls)
  obtain pos n v where c: "c = (pos, n, v)" by (cases c)
  show ?case
    by (simp add: c Cons.IH set_attr_def mset_multimap_insert)
qed

lemma get_attr_other_name:
  assumes "attr_name \<noteq> n"
  shows "get_attr n (set_attr pos attr_name val p) = get_attr n p"
proof -
  have "filter (\<lambda>it. fst it = n) (xs @ (attr_name, val) # ys)
          = filter (\<lambda>it. fst it = n) (xs @ ys)" for xs ys :: "(string \<times> 'a) list"
    using assms by simp
  from this [of "take pos (attrs_' p)" "drop pos (attrs_' p)"]
  have "filter (\<lambda>it. fst it = n) (multimap_insert pos (attr_name, val) (attrs_' p))
          = filter (\<lambda>it. fst it = n) (attrs_' p)"
    unfolding multimap_insert_def append_take_drop_id .
  then show ?thesis
    by (simp add: get_attr_filter set_attr_def)
qed

lemma values_added_alt:
  "values_added n calls = map snd (filter (\<lambda>it. fst it = n) (map snd calls))"
  by (simp add: values_added_def filter_map comp_def)

lemma get_attr_unused_name:
  "values_added n calls = [] \<Longrightarrow> get_attr n (set_attrs calls p) = get_attr n p"
  by (induction calls arbitrary: p)
    (auto simp add: values_added_def get_attr_other_name split: if_splits)

lemma get_attr_same_name_behind:
  assumes "filter (\<lambda>it. fst it = n) (drop pos (attrs_' p)) = []"
  shows "get_attr n (set_attr pos n val p) = get_attr n p @ [val]"
proof -
  let ?f = "filter (\<lambda>it. fst it = n)"
  have "?f (attrs_' p) = ?f (take pos (attrs_' p) @ drop pos (attrs_' p))"
    by simp
  also have "\<dots> = ?f (take pos (attrs_' p))"
    unfolding filter_append assms by simp
  finally have whole: "?f (attrs_' p) = ?f (take pos (attrs_' p))" .
  have "?f (multimap_insert pos (n, val) (attrs_' p)) = ?f (take pos (attrs_' p)) @ [(n, val)]"
    unfolding multimap_insert_def by (simp add: assms)
  then show ?thesis
    by (simp add: get_attr_filter set_attr_def whole)
qed

lemma get_attr_behind_same_name:
  "behind_same_name n (attrs_' p) calls \<Longrightarrow>
   get_attr n (set_attrs calls p) = get_attr n p @ values_added n calls"
proof (induction calls arbitrary: p)
  case Nil
  show ?case by (simp add: values_added_def)
next
  case (Cons c calls)
  obtain pos a v where c: "c = (pos, a, v)" by (cases c)
  from Cons.prems have rest: "behind_same_name n (attrs_' (set_attr pos a v p)) calls"
    by (simp add: c set_attr_def)
  note ih = Cons.IH [OF rest]
  show ?case
  proof (cases "a = n")
    case True
    with Cons.prems have "filter (\<lambda>it. fst it = n) (drop pos (attrs_' p)) = []"
      by (simp add: c)
    then have "get_attr n (set_attr pos n v p) = get_attr n p @ [v]"
      by (rule get_attr_same_name_behind)
    with ih True show ?thesis
      by (simp add: c values_added_def)
  next
    case False
    then have "get_attr n (set_attr pos a v p) = get_attr n p"
      by (rule get_attr_other_name)
    with ih False show ?thesis
      by (simp add: c values_added_def)
  qed
qed

text \<open>
  C2 (as amended): after any chain of \<open>set_attr\<close> calls, \<open>get_attr n\<close> holds every value
  that was added under \<open>n\<close>, each as often as it was added, besides the values that were
  there before: no value is overwritten or removed. A name under which nothing was added
  yields what it yielded before (the empty sequence on a new pass). The values come in
  the order in which they were added whenever each new pair under \<open>n\<close> took a place behind
  the pairs already stored under \<open>n\<close>; the multimap does not promise that place.
\<close>

theorem get_attr_all_values:
  "mset (get_attr n (set_attrs calls p)) = mset (get_attr n p) + mset (values_added n calls)
   \<and> (values_added n calls = [] \<longrightarrow> get_attr n (set_attrs calls p) = get_attr n p)
   \<and> (behind_same_name n (attrs_' p) calls \<longrightarrow>
        get_attr n (set_attrs calls p) = get_attr n p @ values_added n calls)"
proof -
  have "mset (get_attr n (set_attrs calls p))
          = image_mset snd (filter_mset (\<lambda>it. fst it = n) (mset (attrs_' (set_attrs calls p))))"
    by (simp add: get_attr_filter flip: mset_filter mset_map)
  also have "\<dots> = mset (get_attr n p) + mset (values_added n calls)"
    by (simp add: mset_attrs_set_attrs get_attr_filter values_added_alt
        flip: mset_filter mset_map)
  finally have all: "mset (get_attr n (set_attrs calls p))
                       = mset (get_attr n p) + mset (values_added n calls)" .
  from all get_attr_behind_same_name [of n p calls] get_attr_unused_name [of n calls p]
  show ?thesis by blast
qed

text \<open>Two values under \<open>x\<close> and one under \<open>y\<close>: the store holds the pair of \<open>y\<close> first and
  the two pairs of \<open>x\<close> next to each other, the second behind the first.\<close>

theorem get_attr_all_values_witness:
  "behind_same_name ''x'' (attrs_' plain_pass) attr_calls
   \<and> attrs_' (set_attrs attr_calls plain_pass) = [(''y'', 7), (''x'', 1), (''x'', 2)]
   \<and> get_attr ''x'' (set_attrs attr_calls plain_pass) = [1, 2]
   \<and> values_added ''z'' attr_calls = []
   \<and> get_attr ''z'' (set_attrs attr_calls plain_pass) = []"
proof -
  have empty: "attrs_' plain_pass = []"
    by (simp add: plain_pass_def transformation_pass_def pass_base_ctor_def)
  have h1: "behind_same_name ''x'' (attrs_' plain_pass) attr_calls"
    by (simp add: empty attr_calls_def multimap_insert_def)
  have h2: "values_added ''z'' attr_calls = []"
    by (simp add: values_added_def attr_calls_def)
  have store: "attrs_' (set_attrs attr_calls plain_pass) = [(''y'', 7), (''x'', 1), (''x'', 2)]"
    by (simp add: attr_calls_def set_attr_def multimap_insert_def empty)
  have before: "get_attr ''x'' plain_pass = []" "get_attr ''z'' plain_pass = []"
    by (simp_all add: get_attr_def empty)
  have x: "values_added ''x'' attr_calls = [1, 2]"
    by (simp add: values_added_def attr_calls_def)
  from get_attr_all_values [of "''x''" attr_calls plain_pass] h1
  have "get_attr ''x'' (set_attrs attr_calls plain_pass) = [1, 2]"
    by (simp only: before x append_Nil)
  moreover from get_attr_all_values [of "''z''" attr_calls plain_pass] h2
  have "get_attr ''z'' (set_attrs attr_calls plain_pass) = []"
    by (simp only: before)
  ultimately show ?thesis using h1 h2 store by blast
qed

text \<open>
  The claim as stated fails with three values under one name, where the multimap links
  each new pair right behind the first pair with an equal key (as the libstdc++ build
  does): the second value takes place 1 and two values still come in the order added, the
  third value takes place 1 as well and comes before the second.
\<close>

theorem get_attr_order_counterexample:
  "get_attr ''x'' (set_attr 1 ''x'' 2 (set_attr 0 ''x'' 1 plain_pass)) = [1, 2]
   \<and> get_attr ''x'' (set_attr 1 ''x'' 3 (set_attr 1 ''x'' 2 (set_attr 0 ''x'' 1 plain_pass)))
       = [1, 3, 2]
   \<and> get_attr ''x'' (set_attr 1 ''x'' 3 (set_attr 1 ''x'' 2 (set_attr 0 ''x'' 1 plain_pass)))
       \<noteq> [1, 2, 3]"
  by (simp add: get_attr_def set_attr_def multimap_insert_def plain_pass_def
      transformation_pass_def pass_base_ctor_def)

text \<open>
  C10: \<open>has_attr n\<close> is true exactly when \<open>get_attr n\<close> is a non-empty sequence, in every
  state of the attribute store.
\<close>

theorem has_attr_iff_get_attr: "has_attr n p \<longleftrightarrow> get_attr n p \<noteq> []"
  by (force simp add: has_attr_def get_attr_filter find_None_iff filter_empty_conv)

theorem has_attr_iff_get_attr_witness:
  "has_attr ''FCreatePattern'' receiving_pass
   \<and> get_attr ''FCreatePattern'' receiving_pass = [1]
   \<and> \<not> has_attr ''FRequirement'' receiving_pass
   \<and> get_attr ''FRequirement'' receiving_pass = []"
proof -
  have a: "attrs_' receiving_pass = [(''FCreatePattern'', 1)]"
    by (simp add: receiving_pass_def set_attr_def multimap_insert_def analysis_pass_def
        pass_base_ctor_def)
  have g: "get_attr ''FCreatePattern'' receiving_pass = [1]"
    "get_attr ''FRequirement'' receiving_pass = []"
    by (simp_all add: get_attr_def a)
  from has_attr_iff_get_attr [of "''FCreatePattern''" receiving_pass]
    has_attr_iff_get_attr [of "''FRequirement''" receiving_pass] g
  show ?thesis by simp
qed

section \<open>pass_base: save and load\<close>

lemmas writer_defs = save_def begin_object_def write_keyvalue_def end_object_def

lemma saved_pass_fields:
  "name_' saved_pass = ''conv_bn_fusion''" "backend_' saved_pass = ''dnnl''"
  "type_' saved_pass = kTransformation" "priority_' saved_pass = 8" "enable_' saved_pass"
  "index_' saved_pass = 4" "attrs_' saved_pass = []"
  by (simp_all add: saved_pass_def set_priority_def transformation_pass_def pass_base_ctor_def)

lemma receiving_pass_fields:
  "name_' receiving_pass = ''memory_plan''" "backend_' receiving_pass = ''cpu''"
  "type_' receiving_pass = kAnalysis" "priority_' receiving_pass = 5" "enable_' receiving_pass"
  "index_' receiving_pass = 3" "attrs_' receiving_pass = [(''FCreatePattern'', 1)]"
  by (simp_all add: receiving_pass_def set_attr_def multimap_insert_def analysis_pass_def
      pass_base_ctor_def)

text \<open>
  C8: \<open>save\<close> appends to the writer one object with exactly the five keyed fields
  \<open>pass_name\<close>, \<open>pass_type\<close> (the string Transformation for a transformation pass, Analysis
  for an analysis pass), \<open>pass_backend\<close>, \<open>priority\<close> and \<open>enable\<close>, in this order; the record
  does not depend on the creation index or on the attributes of the pass.
\<close>

theorem save_five_fields:
  "save p writer = writer @
      [begin_object_ev,
       keyvalue_ev ''pass_name'' (json_string (name_' p)),
       keyvalue_ev ''pass_type''
         (json_string (case type_' p of kTransformation \<Rightarrow> ''Transformation''
                                      | kAnalysis \<Rightarrow> ''Analysis'')),
       keyvalue_ev ''pass_backend'' (json_string (backend_' p)),
       keyvalue_ev ''priority'' (json_number (priority_' p)),
       keyvalue_ev ''enable'' (json_bool (enable_' p)),
       end_object_ev]
   \<and> save (p\<lparr>index_' := i, attrs_' := a\<rparr>) writer = save p writer"
  by (cases "type_' p") (simp_all add: writer_defs)

theorem save_five_fields_witness:
  "save saved_pass [] =
      [begin_object_ev,
       keyvalue_ev ''pass_name'' (json_string ''conv_bn_fusion''),
       keyvalue_ev ''pass_type'' (json_string ''Transformation''),
       keyvalue_ev ''pass_backend'' (json_string ''dnnl''),
       keyvalue_ev ''priority'' (json_number 8),
       keyvalue_ev ''enable'' (json_bool True),
       end_object_ev]
   \<and> save receiving_pass [] =
      [begin_object_ev,
       keyvalue_ev ''pass_name'' (json_string ''memory_plan''),
       keyvalue_ev ''pass_type'' (json_string ''Analysis''),
       keyvalue_ev ''pass_backend'' (json_string ''cpu''),
       keyvalue_ev ''priority'' (json_number 5),
       keyvalue_ev ''enable'' (json_bool True),
       end_object_ev]"
  using save_five_fields [of saved_pass "[]"] save_five_fields [of receiving_pass "[]"]
  by (simp add: saved_pass_fields receiving_pass_fields)

lemma load_save:
  "load this (save p []) =
     Inr (this\<lparr>name_' := name_' p, backend_' := backend_' p,
               priority_' := priority_' p, enable_' := enable_' p\<rparr>)"
  by (cases "type_' p") (simp_all add: load_def writer_defs)

text \<open>
  C1 (as amended): \<open>load\<close>, called on a pass with the record that \<open>save\<close> wrote for a pass
  \<open>p\<close>, succeeds and makes the name, backend, priority and enable flag of the receiving
  pass those of \<open>p\<close>. The creation index and the attributes are not round-tripped: the
  receiving pass keeps its own, nothing is reset.
\<close>

theorem load_save_fields:
  "\<exists>q. load this (save p []) = Inr q
       \<and> get_pass_name q = get_pass_name p \<and> get_pass_backend q = get_pass_backend p
       \<and> get_priority q = get_priority p \<and> get_enable q = get_enable p
       \<and> get_pass_index q = get_pass_index this \<and> attrs_' q = attrs_' this"
  by (simp add: load_save get_pass_name_def get_pass_backend_def get_priority_def
      get_enable_def get_pass_index_def)

theorem load_save_fields_witness:
  "get_pass_name (projr (load receiving_pass (save saved_pass []))) = ''conv_bn_fusion''
   \<and> get_pass_backend (projr (load receiving_pass (save saved_pass []))) = ''dnnl''
   \<and> get_priority (projr (load receiving_pass (save saved_pass []))) = 8
   \<and> get_enable (projr (load receiving_pass (save saved_pass [])))"
  using load_save_fields [of receiving_pass saved_pass]
  by (auto simp add: saved_pass_fields get_pass_name_def get_pass_backend_def get_priority_def
      get_enable_def)

text \<open>
  The claim as stated fails: a transformation pass is saved and the record is loaded on an
  analysis pass with creation index 3 and one attribute. The field \<open>pass_type\<close> goes to a
  local string that \<open>load\<close> does not use, so after \<open>load\<close> the receiving pass is still an
  analysis pass, and it still has its creation index and its attribute.
\<close>

theorem load_save_kind_counterexample:
  "\<not> isl (load receiving_pass (save saved_pass []))
   \<and> get_pass_type saved_pass = kTransformation
   \<and> get_pass_type (projr (load receiving_pass (save saved_pass []))) = kAnalysis
   \<and> sint (get_pass_index (projr (load receiving_pass (save saved_pass [])))) = 3
   \<and> get_attr ''FCreatePattern'' (projr (load receiving_pass (save saved_pass []))) = [1]"
  by (simp add: load_def writer_defs saved_pass_fields receiving_pass_fields get_pass_type_def
      get_pass_index_def get_attr_def)

section \<open>pass_registry: lookup and registration\<close>



lemma abc_registry_map:
  "passes_map_' abc_registry = [''A'' \<mapsto> 0, ''B'' \<mapsto> 1, ''C'' \<mapsto> 2]"
  by (simp add: abc_registry_def register_pass_def pass_registry_ctor_def on_pass_def Let_def
      numeral_2_eq_2)

text \<open>
  C5 (as amended): in a build in which \<open>assert\<close> checks (\<open>NDEBUG\<close> not defined),
  \<open>get_pass_ptr\<close> on a name that is not in the name-indexed map stops at the assertion
  "pass not exists!" and returns no pass reference, in every state of the registry.
\<close>

theorem get_pass_ptr_unregistered:
  "passes_map_' r pass_name = None \<Longrightarrow>
   get_pass_ptr False pass_name r = Inl (assertion_failed ''pass not exists!'')"
  by (simp add: get_pass_ptr_def)

theorem get_pass_ptr_unregistered_witness:
  "passes_map_' abc_registry ''D'' = None
   \<and> get_pass_ptr False ''D'' abc_registry = Inl (assertion_failed ''pass not exists!'')
   \<and> get_pass_ptr False ''B'' abc_registry = Inr 1"
proof -
  have h: "passes_map_' abc_registry ''D'' = None"
    by (simp add: abc_registry_map)
  have "get_pass_ptr False ''B'' abc_registry = Inr 1"
    by (simp add: get_pass_ptr_def abc_registry_map)
  with h get_pass_ptr_unregistered [OF h] show ?thesis by simp
qed

text \<open>
  The claim as stated fails in a build with \<open>NDEBUG\<close>: the assertion is compiled out and
  the lookup of an unregistered name dereferences the end iterator, with no explicit error.
\<close>

theorem get_pass_ptr_ndebug_counterexample:
  "passes_map_' abc_registry ''D'' = None
   \<and> get_pass_ptr True ''D'' abc_registry = Inl undefined_behaviour
   \<and> get_pass_ptr True ''D'' abc_registry \<noteq> Inl (assertion_failed ''pass not exists!'')"
  by (simp add: get_pass_ptr_def abc_registry_map)


lemma register_pass_dom:
  "dom (passes_map_' (snd (register_pass b n f r))) = insert n (dom (passes_map_' r))"
  by (auto simp add: register_pass_def Let_def split: option.splits)

lemma register_passes_dom:
  "dom (passes_map_' (register_passes calls r))
     = dom (passes_map_' r) \<union> set (map (\<lambda>c. fst (snd c)) calls)"
  by (induction calls r rule: register_passes.induct) (auto simp add: register_pass_dom)

text \<open>
  C7: after any sequence of registration calls, on any registry, a further registration
  under a name that one of the calls used is rejected with \<open>DuplicateRegistration\<close>, and the
  registry after the rejected call is the registry before it (the pass registered first
  is still the one stored under the name).
\<close>

theorem register_pass_duplicate_rejected:
  assumes "(backend_name, pass_name, fn) \<in> set calls"
  shows "register_pass backend_name' pass_name fn' (register_passes calls r)
           = (Inl DuplicateRegistration, register_passes calls r)"
proof -
  from assms have "pass_name \<in> set (map (\<lambda>c. fst (snd c)) calls)"
    by force
  then have "pass_name \<in> dom (passes_map_' (register_passes calls r))"
    by (simp add: register_passes_dom)
  then obtain ptr where "passes_map_' (register_passes calls r) pass_name = Some ptr"
    by blast
  then show ?thesis
    by (simp add: register_pass_def)
qed

theorem register_pass_duplicate_rejected_witness:
  "(''dnnl'', ''B'', transformation_pass) \<in> set abc_calls
   \<and> register_pass ''cpu'' ''B'' analysis_pass (register_passes abc_calls pass_registry_ctor)
       = (Inl DuplicateRegistration, register_passes abc_calls pass_registry_ctor)"
proof -
  have h: "(''dnnl'', ''B'', transformation_pass) \<in> set abc_calls"
    by (simp add: abc_calls_def)
  from h register_pass_duplicate_rejected [OF h, of "''cpu''" analysis_pass pass_registry_ctor]
  show ?thesis by simp
qed

section \<open>pass_registry: creation indices\<close>














section \<open>pass_registry: sorting\<close>















end
